theory Spec2Isabelle
  imports Main "HOL-Library.Word"
begin

unbundle bit_operations_syntax

section \<open>Bytes, addresses and Go runtime values\<close>

text \<open>
  Go's \<^verbatim>\<open>byte\<close> is an 8-bit word and \<^verbatim>\<open>[]byte\<close> a list of them. A Go
  \<^verbatim>\<open>string\<close> is a byte string too, so string literals of the source are
  turned into bytes character by character.
\<close>

type_synonym byte = "8 word"

definition bytes_of :: "string \<Rightarrow> byte list" where
  "bytes_of s = map of_char s"

text \<open>
  \<^verbatim>\<open>common.Address\<close> is the array type \<^verbatim>\<open>[20]byte\<close>: a byte string of
  length exactly 20. \<^verbatim>\<open>Address.Bytes()\<close> returns the 20 bytes.
\<close>

typedef Address = "{bs :: byte list. length bs = 20}"
  morphisms Bytes Abs_Address
  by (rule exI [of _ "replicate 20 0"]) simp

text \<open>
  \<^verbatim>\<open>common.BytesToAddress\<close>: the last 20 bytes of a longer input, a shorter
  input right-aligned in 20 zero bytes.
\<close>

definition BytesToAddress :: "byte list \<Rightarrow> Address" where
  "BytesToAddress b =
     (let b' = (if 20 < length b then drop (length b - 20) b else b)
      in Abs_Address (replicate (20 - length b') 0 @ b'))"

text \<open>A Go \<^verbatim>\<open>error\<close> value; \<^verbatim>\<open>(T, error)\<close> results are \<open>error + T\<close>.\<close>

datatype error = Error string

section \<open>The cheque\<close>

text \<open>
  \<^verbatim>\<open>type ChequeParams struct { Contract, Beneficiary common.Address;
  CumulativePayout uint64 }\<close>
\<close>

record ChequeParams =
  Contract :: Address
  Beneficiary :: Address
  CumulativePayout :: "64 word"

text \<open>
  \<^verbatim>\<open>binary.BigEndian.PutUint64(b, v)\<close> writes \<open>v\<close> into \<open>b[0..7]\<close>, most
  significant byte first, and leaves the rest of \<open>b\<close> alone. It panics (here
  \<open>None\<close>) when \<open>b\<close> has fewer than 8 bytes. The Go function mutates the slice
  it is given; the model returns the slice's new contents.
\<close>

definition PutUint64 :: "byte list \<Rightarrow> 64 word \<Rightarrow> byte list option" where
  "PutUint64 b v =
     (if length b < 8 then None
      else Some (b[0 := ucast (drop_bit 56 v),
                   1 := ucast (drop_bit 48 v),
                   2 := ucast (drop_bit 40 v),
                   3 := ucast (drop_bit 32 v),
                   4 := ucast (drop_bit 24 v),
                   5 := ucast (drop_bit 16 v),
                   6 := ucast (drop_bit 8 v),
                   7 := ucast v]))"

text \<open>The eight bytes \<^verbatim>\<open>PutUint64\<close> writes, as a list.\<close>

definition be_bytes64 :: "64 word \<Rightarrow> byte list" where
  "be_bytes64 v =
     [ucast (drop_bit 56 v), ucast (drop_bit 48 v), ucast (drop_bit 40 v), ucast (drop_bit 32 v),
      ucast (drop_bit 24 v), ucast (drop_bit 16 v), ucast (drop_bit 8 v), ucast v]"

text \<open>
  \<^verbatim>\<open>encodeForSignature\<close>: a fresh 32-byte zero buffer, the payout written
  into the sub-slice \<open>cumulativePayoutBytes[24:]\<close> (which shares the buffer, so
  the buffer becomes its first 24 bytes followed by the written slice), then
  the three parts appended. \<open>None\<close> is a runtime panic.
\<close>

definition encodeForSignature :: "ChequeParams \<Rightarrow> byte list option" where
  "encodeForSignature cheque =
     (let cumulativePayoutBytes = replicate 32 (0 :: byte) in
      case PutUint64 (drop 24 cumulativePayoutBytes) (CumulativePayout cheque) of
        None \<Rightarrow> None
      | Some written \<Rightarrow>
          let cumulativePayoutBytes = take 24 cumulativePayoutBytes @ written;
              input = Bytes (Contract cheque);
              input = input @ Bytes (Beneficiary cheque);
              input = input @ cumulativePayoutBytes
          in Some input)"

text \<open>
  \<^verbatim>\<open>fmt.Sprintf("%d", n)\<close> for a non-negative \<open>n\<close>: the decimal digits, most
  significant first, no padding.
\<close>

fun decimal :: "nat \<Rightarrow> string" where
  "decimal n =
     (if n < 10 then [char_of (48 + n)]
      else decimal (n div 10) @ [char_of (48 + n mod 10)])"

declare decimal.simps [simp del]

text \<open>
  \<^verbatim>\<open>sigHash\<close>. \<^verbatim>\<open>crypto.Keccak256\<close> belongs to go-ethereum, not to this
  program: it is the parameter \<open>Keccak256\<close>. The format string
  \<^verbatim>\<open>"\x19Ethereum Signed Message:\n%d%s"\<close> is the byte 0x19, the text, a line
  feed, the decimal length of the first hash and the bytes of that hash.
\<close>

definition signedMessagePrefix :: "byte list" where
  "signedMessagePrefix = 0x19 # bytes_of ''Ethereum Signed Message:'' @ [0x0A]"

definition sigHash :: "(byte list \<Rightarrow> byte list) \<Rightarrow> ChequeParams \<Rightarrow> byte list option" where
  "sigHash Keccak256 cheque =
     (case encodeForSignature cheque of
        None \<Rightarrow> None
      | Some encoded \<Rightarrow>
          let input = Keccak256 encoded;
              withPrefix = signedMessagePrefix @ bytes_of (decimal (length input)) @ input
          in Some (Keccak256 withPrefix))"

section \<open>Big-endian integers\<close>

text \<open>
  The \<open>k\<close>-byte big-endian representation of an unsigned integer (the most
  significant byte first; the integer is taken modulo \<open>256 ^ k\<close>), and the
  integer a big-endian byte string stands for.
\<close>

fun big_endian :: "nat \<Rightarrow> nat \<Rightarrow> byte list" where
  "big_endian 0 x = []"
| "big_endian (Suc k) x = big_endian k (x div 256) @ [of_nat (x mod 256)]"

definition be_nat :: "byte list \<Rightarrow> nat" where
  "be_nat bs = foldl (\<lambda>acc b. acc * 256 + unat b) 0 bs"

section \<open>Contract ABI packing\<close>

text \<open>
  Modelled from the spec: \<^verbatim>\<open>abi.Pack\<close> belongs to go-ethereum and is not among
  the sources. The spec describes what it produces: a function identifier
  derived from the signature string, then the arguments, the fixed-size ones
  inline and the dynamic ones as offset, length and data. The definitions
  follow go-ethereum's functions of the same names, for what the one call of
  the source reaches: the argument types \<open>address\<close>, \<open>uint<n>\<close> and
  \<open>bytes\<close>, and Go values of the types \<^verbatim>\<open>common.Address\<close>,
  \<^verbatim>\<open>*big.Int\<close> and \<^verbatim>\<open>[]byte\<close>.
\<close>

datatype abi_type = AddressTy | UintTy nat | BytesTy

datatype go_value = AddressV Address | BigIntV int | BytesV "byte list"

record Method =
  Name :: string
  Inputs :: "abi_type list"

record ABI =
  Methods :: "string \<rightharpoonup> Method"

fun type_String :: "abi_type \<Rightarrow> string" where
  "type_String AddressTy = ''address''"
| "type_String (UintTy n) = ''uint'' @ decimal n"
| "type_String BytesTy = ''bytes''"

fun join :: "string list \<Rightarrow> string \<Rightarrow> string" where
  "join [] sep = []"
| "join [s] sep = s"
| "join (s # t # ss) sep = s @ sep @ join (t # ss) sep"

text \<open>
  \<^verbatim>\<open>Method.Sig()\<close> is the canonical signature \<open>name(type,...,type)\<close>;
  \<^verbatim>\<open>Method.ID()\<close> is the first four bytes of its Keccak-256 hash.
\<close>

definition Sig :: "Method \<Rightarrow> string" where
  "Sig method = Name method @ ''('' @ join (map type_String (Inputs method)) '','' @ '')''"

definition ID :: "(byte list \<Rightarrow> byte list) \<Rightarrow> Method \<Rightarrow> byte list" where
  "ID Keccak256 method = take 4 (Keccak256 (bytes_of (Sig method)))"

text \<open>
  \<^verbatim>\<open>common.LeftPadBytes\<close> and \<^verbatim>\<open>common.RightPadBytes\<close> return the slice
  itself when it already has \<open>l\<close> bytes or more.
\<close>

definition LeftPadBytes :: "byte list \<Rightarrow> nat \<Rightarrow> byte list" where
  "LeftPadBytes bs l =
     (if l \<le> length bs then bs else replicate (l - length bs) 0 @ bs)"

definition RightPadBytes :: "byte list \<Rightarrow> nat \<Rightarrow> byte list" where
  "RightPadBytes bs l =
     (if l \<le> length bs then bs else bs @ replicate (l - length bs) 0)"

text \<open>
  \<^verbatim>\<open>U256\<close> turns a big integer into a 256-bit EVM number: the integer is
  reduced to 256 bits in two's complement (\<^verbatim>\<open>x.And(x, 2^256 - 1)\<close>), so a
  negative \<open>n\<close> becomes \<open>2 ^ 256 + n\<close>, and is written as 32 big-endian
  bytes. \<^verbatim>\<open>packNum\<close> applies it to Go integers and to \<^verbatim>\<open>*big.Int\<close>.
\<close>

definition U256 :: "int \<Rightarrow> byte list" where
  "U256 n = big_endian 32 (nat (n mod 2 ^ 256))"

definition packNum :: "int \<Rightarrow> byte list" where
  "packNum n = U256 n"

definition packBytesSlice :: "byte list \<Rightarrow> nat \<Rightarrow> byte list" where
  "packBytesSlice bytes l = packNum (int l) @ RightPadBytes bytes ((l + 31) div 32 * 32)"

text \<open>
  \<^verbatim>\<open>Type.pack\<close>: the type check of the Go value against the ABI type, then
  \<^verbatim>\<open>packElement\<close>.
\<close>

fun pack :: "abi_type \<Rightarrow> go_value \<Rightarrow> error + byte list" where
  "pack AddressTy v =
     (case v of
        AddressV a \<Rightarrow> Inr (LeftPadBytes (Bytes a) 32)
      | _ \<Rightarrow> Inl (Error ''abi: cannot use value as type address''))"
| "pack (UintTy n) v =
     (case v of
        BigIntV x \<Rightarrow> Inr (packNum x)
      | _ \<Rightarrow> Inl (Error (''abi: cannot use value as type uint'' @ decimal n)))"
| "pack BytesTy v =
     (case v of
        BytesV b \<Rightarrow> Inr (packBytesSlice b (length b))
      | _ \<Rightarrow> Inl (Error ''abi: cannot use value as type bytes''))"

fun isDynamicType :: "abi_type \<Rightarrow> bool" where
  "isDynamicType BytesTy = True"
| "isDynamicType t = False"

fun getTypeSize :: "abi_type \<Rightarrow> nat" where
  "getTypeSize t = 32"

text \<open>
  The loop of \<^verbatim>\<open>Arguments.Pack\<close> over the arguments, with its three
  variables: a static value goes to \<open>ret\<close>; a dynamic one goes to
  \<open>variableInput\<close> and leaves its offset in \<open>ret\<close>.
\<close>

fun packLoop ::
  "abi_type list \<Rightarrow> go_value list \<Rightarrow> nat \<Rightarrow> byte list \<Rightarrow> byte list \<Rightarrow> error + byte list"
where
  "packLoop abiArgs [] inputOffset ret variableInput = Inr (ret @ variableInput)"
| "packLoop [] (a # args) inputOffset ret variableInput = Inl (Error ''index out of range'')"
| "packLoop (input # abiArgs) (a # args) inputOffset ret variableInput =
     (case pack input a of
        Inl err \<Rightarrow> Inl err
      | Inr packed \<Rightarrow>
          if isDynamicType input
          then packLoop abiArgs args (inputOffset + length packed)
                 (ret @ packNum (int inputOffset)) (variableInput @ packed)
          else packLoop abiArgs args inputOffset (ret @ packed) variableInput)"

definition Arguments_Pack :: "abi_type list \<Rightarrow> go_value list \<Rightarrow> error + byte list" where
  "Arguments_Pack abiArgs args =
     (if length args \<noteq> length abiArgs then Inl (Error ''argument count mismatch'')
      else packLoop abiArgs args (sum_list (map getTypeSize abiArgs)) [] [])"

text \<open>\<^verbatim>\<open>ABI.Pack\<close> for a method name (not the constructor).\<close>

definition ABI_Pack ::
  "(byte list \<Rightarrow> byte list) \<Rightarrow> ABI \<Rightarrow> string \<Rightarrow> go_value list \<Rightarrow> error + byte list"
where
  "ABI_Pack Keccak256 abi name args =
     (case Methods abi name of
        None \<Rightarrow> Inl (Error (''method not found: '' @ name))
      | Some method \<Rightarrow>
          (case Arguments_Pack (Inputs method) args of
             Inl err \<Rightarrow> Inl err
           | Inr arguments \<Rightarrow> Inr (ID Keccak256 method @ arguments)))"

text \<open>
  Modelled from the spec: the constant \<^verbatim>\<open>simpleswapfactory.ERC20SimpleSwapABI\<close>
  comes from the contract bindings and is not among the sources. The spec gives
  the canonical signature of the method the program calls,
  \<^verbatim>\<open>cashChequeBeneficiary(address,uint256,bytes)\<close>; this is what
  \<^verbatim>\<open>abi.JSON\<close> returns for the constant, restricted to that method.
\<close>

definition ERC20SimpleSwapABI :: "error + ABI" where
  "ERC20SimpleSwapABI =
     Inr \<lparr>Methods = [''cashChequeBeneficiary'' \<mapsto>
            \<lparr>Name = ''cashChequeBeneficiary'', Inputs = [AddressTy, UintTy 256, BytesTy]\<rparr>]\<rparr>"

section \<open>The cash-out request\<close>

text \<open>
  The two queries of \<^verbatim>\<open>EthBackend\<close> the request makes:
  \<^verbatim>\<open>PendingNonceAt(ctx, account) (uint64, error)\<close> and
  \<^verbatim>\<open>SuggestGasPrice(ctx) (*big.Int, error)\<close>. The ledger client is a
  machine with a state of its own (\<open>'s\<close>): a query takes the state the client
  is in and returns its answer and the state the client is in afterwards.
\<close>

record 's EthBackend =
  PendingNonceAt :: "Address \<Rightarrow> 's \<Rightarrow> (error + 64 word) \<times> 's"
  SuggestGasPrice :: "'s \<Rightarrow> (error + int) \<times> 's"

text \<open>The fields of \<^verbatim>\<open>types.Transaction\<close> that \<^verbatim>\<open>types.NewTransaction\<close> sets.\<close>

record Transaction =
  AccountNonce :: "64 word"
  Price :: int
  GasLimit :: "64 word"
  Recipient :: "Address option"
  Amount :: int
  Payload :: "byte list"

definition NewTransaction ::
  "64 word \<Rightarrow> Address \<Rightarrow> int \<Rightarrow> 64 word \<Rightarrow> int \<Rightarrow> byte list \<Rightarrow> Transaction"
where
  "NewTransaction nonce to amount gasLimit gasPrice data =
     \<lparr>AccountNonce = nonce, Price = gasPrice, GasLimit = gasLimit,
      Recipient = Some to, Amount = amount, Payload = data\<rparr>"

text \<open>
  \<^verbatim>\<open>CashChequeBeneficiaryRequest\<close>. The payout is passed on as
  \<^verbatim>\<open>big.NewInt(int64(cheque.CumulativePayout))\<close>: the conversion to
  \<^verbatim>\<open>int64\<close> reads the 64 bits as a signed number (\<open>sint\<close>). The
  request starts with the ledger client in state \<open>s\<close> and returns, with its
  result, the state it leaves the client in.
\<close>

definition CashChequeBeneficiaryRequest ::
  "(byte list \<Rightarrow> byte list) \<Rightarrow> 's EthBackend \<Rightarrow> 's \<Rightarrow> Address \<Rightarrow> Address \<Rightarrow> ChequeParams
     \<Rightarrow> byte list \<Rightarrow> (error + Transaction) \<times> 's"
where
  "CashChequeBeneficiaryRequest Keccak256 backend s to recipient cheque ownerSig =
     (case ERC20SimpleSwapABI of
        Inl err \<Rightarrow> (Inl err, s)
      | Inr abi \<Rightarrow>
     (case ABI_Pack Keccak256 abi ''cashChequeBeneficiary''
             [AddressV recipient, BigIntV (sint (CumulativePayout cheque)), BytesV ownerSig] of
        Inl err \<Rightarrow> (Inl err, s)
      | Inr callData \<Rightarrow>
     (case PendingNonceAt backend (Beneficiary cheque) s of
        (Inl err, s1) \<Rightarrow> (Inl err, s1)
      | (Inr nonce, s1) \<Rightarrow>
     (case SuggestGasPrice backend s1 of
        (Inl err, s2) \<Rightarrow> (Inl err, s2)
      | (Inr gasPrice, s2) \<Rightarrow>
          (Inr (NewTransaction nonce to 0 1000000 gasPrice callData), s2)))))"

section \<open>Reading call data back\<close>

text \<open>
  Modelled from the spec: the decoder belongs to go-ethereum as well. The spec
  speaks of decoding the call data by the same ABI scheme; for the argument
  list \<open>(address, uint256, bytes)\<close> that is three head words (the address
  in the low 20 bytes of the first, the integer, the offset of the dynamic
  part), then at that offset a length word and the bytes. \<open>None\<close> when the
  data is too short.
\<close>

definition unpackArguments :: "byte list \<Rightarrow> (Address \<times> nat \<times> byte list) option" where
  "unpackArguments data =
     (if length data < 96 then None
      else
        let recipient = BytesToAddress (take 32 data);
            cumulativePayout = be_nat (take 32 (drop 32 data));
            offset = be_nat (take 32 (drop 64 data))
        in if length data < offset + 32 then None
           else
             let l = be_nat (take 32 (drop offset data))
             in if length data < offset + 32 + l then None
                else Some (recipient, cumulativePayout, take l (drop (offset + 32) data)))"

definition unpackCallData :: "byte list \<Rightarrow> (Address \<times> nat \<times> byte list) option" where
  "unpackCallData callData =
     (if length callData < 4 then None else unpackArguments (drop 4 callData))"

section \<open>Sample values\<close>

text \<open>
  A function with 32-byte results to stand for the hash where only the length
  of a digest matters. A cheque over 100 units, a second one for the same contract and beneficiary
  over 50, and a recipient. Three ledger clients whose state is the list of
  the queries they have received so far: one that answers both queries (the
  nonce of an account being the last byte of its address), one whose nonce
  query fails and one whose price query fails.
\<close>

definition sample_digest :: "byte list \<Rightarrow> byte list" where
  "sample_digest xs = take 32 (xs @ replicate 32 0)"

definition sample_cheque :: ChequeParams where
  "sample_cheque =
     \<lparr>Contract = BytesToAddress [0xC0], Beneficiary = BytesToAddress [0xBE], CumulativePayout = 100\<rparr>"

definition smaller_cheque :: ChequeParams where
  "smaller_cheque = sample_cheque\<lparr>CumulativePayout := 50\<rparr>"

definition sample_recipient :: Address where
  "sample_recipient = BytesToAddress [0xAD]"

datatype ledger_query = NonceQuery Address | PriceQuery

definition sample_backend :: "ledger_query list EthBackend" where
  "sample_backend =
     \<lparr>PendingNonceAt = (\<lambda>account queries.
        (Inr (ucast (last (Bytes account))), queries @ [NonceQuery account])),
      SuggestGasPrice = (\<lambda>queries. (Inr 20000000000, queries @ [PriceQuery]))\<rparr>"

definition nonce_failing_backend :: "ledger_query list EthBackend" where
  "nonce_failing_backend =
     \<lparr>PendingNonceAt = (\<lambda>account queries.
        (Inl (Error ''nonce unavailable''), queries @ [NonceQuery account])),
      SuggestGasPrice = (\<lambda>queries. (Inr 20000000000, queries @ [PriceQuery]))\<rparr>"

definition price_failing_backend :: "ledger_query list EthBackend" where
  "price_failing_backend =
     \<lparr>PendingNonceAt = (\<lambda>account queries. (Inr 7, queries @ [NonceQuery account])),
      SuggestGasPrice = (\<lambda>queries. (Inl (Error ''price unavailable''), queries @ [PriceQuery]))\<rparr>"

section \<open>Properties of the cheque encoding\<close>

lemma length_Bytes: "length (Bytes a) = 20"
  using Bytes [of a] by simp

lemma Bytes_BytesToAddress:
  "Bytes (BytesToAddress b) =
     (if 20 < length b then drop (length b - 20) b else replicate (20 - length b) 0 @ b)"
  by (simp add: BytesToAddress_def Abs_Address_inverse)

lemma length_big_endian: "length (big_endian k x) = k"
  by (induction k arbitrary: x) auto

lemma big_endian_zero: "big_endian k 0 = replicate k 0"
  by (induction k) (auto simp: replicate_append_same)

lemma big_endian_add: "big_endian (j + k) x = big_endian j (x div 256 ^ k) @ big_endian k x"
proof (induction k arbitrary: x)
  case 0
  then show ?case by simp
next
  case (Suc k)
  have "x div 256 div 256 ^ k = x div 256 ^ Suc k"
    by (simp add: div_mult2_eq)
  with Suc [of "x div 256"] show ?case by simp
qed

lemma byte_of_nat_mod: "(of_nat (n mod 256) :: byte) = of_nat n"
  by (simp add: word_of_nat_eq_iff take_bit_eq_mod)

lemma byte_of_unat:
  "(of_nat (unat (v :: 64 word) div 2 ^ k mod 256) :: byte) = ucast (drop_bit k v)"
proof -
  have "(of_nat (unat v div 2 ^ k mod 256) :: byte) = of_nat (drop_bit k (unat v))"
    by (simp only: byte_of_nat_mod drop_bit_eq_div)
  also have "\<dots> = of_nat (unat (drop_bit k v))"
    by (simp only: unat_drop_bit_eq)
  also have "\<dots> = ucast (drop_bit k v)"
    by simp
  finally show ?thesis .
qed

lemma big_endian_8:
  "big_endian 8 x = map (\<lambda>k. of_nat (x div 2 ^ k mod 256)) [56, 48, 40, 32, 24, 16, 8, 0]"
proof -
  have "big_endian 8 x = big_endian (Suc (Suc (Suc (Suc (Suc (Suc (Suc (Suc 0)))))))) x"
    by (rule arg_cong [where f = "\<lambda>n. big_endian n x"]) simp
  also have "\<dots> = map (\<lambda>k. of_nat (x div 2 ^ k mod 256)) [56, 48, 40, 32, 24, 16, 8, 0]"
    by (simp add: div_mult2_eq [symmetric])
  finally show ?thesis .
qed

lemma big_endian_8_unat: "big_endian 8 (unat (v :: 64 word)) = be_bytes64 v"
  unfolding big_endian_8 be_bytes64_def
  using byte_of_unat [of v 0] by (simp add: byte_of_unat)

lemma big_endian_32_unat:
  "big_endian 32 (unat (v :: 64 word)) = replicate 24 0 @ big_endian 8 (unat v)"
proof -
  have "unat v < 2 ^ 64"
    using unsigned_less [of v, where 'a = nat] by simp
  then have hi: "unat v div 256 ^ 8 = 0"
    by simp
  have "big_endian (24 + 8) (unat v) = replicate 24 0 @ big_endian 8 (unat v)"
    by (simp only: big_endian_add hi big_endian_zero)
  then show ?thesis by simp
qed

lemma PutUint64_zeros: "PutUint64 (replicate 8 0) v = Some (be_bytes64 v)"
  by (simp add: PutUint64_def be_bytes64_def eval_nat_numeral)

lemma encodeForSignature_eq:
  "encodeForSignature cheque =
     Some (Bytes (Contract cheque) @ Bytes (Beneficiary cheque) @
           big_endian 32 (unat (CumulativePayout cheque)))"
  by (simp add: encodeForSignature_def PutUint64_zeros big_endian_32_unat big_endian_8_unat)

lemma be_nat_foldl:
  "foldl (\<lambda>acc b. acc * 256 + unat b) a bs = a * 256 ^ length bs + be_nat bs"
proof (induction bs arbitrary: a)
  case Nil
  then show ?case by (simp add: be_nat_def)
next
  case (Cons b bs)
  let ?f = "\<lambda>acc b. acc * 256 + unat (b :: byte)"
  have step: "foldl ?f a (b # bs) = (a * 256 + unat b) * 256 ^ length bs + be_nat bs"
    using Cons.IH [of "a * 256 + unat b"] by simp
  have "be_nat (b # bs) = foldl ?f (unat b) bs"
    by (simp add: be_nat_def)
  then have "be_nat (b # bs) = unat b * 256 ^ length bs + be_nat bs"
    using Cons.IH [of "unat b"] by simp
  with step show ?case
    by (simp add: algebra_simps)
qed

lemma be_nat_append: "be_nat (xs @ ys) = be_nat xs * 256 ^ length ys + be_nat ys"
proof -
  have "be_nat (xs @ ys) = foldl (\<lambda>acc b. acc * 256 + unat b) (be_nat xs) ys"
    by (simp add: be_nat_def)
  then show ?thesis by (simp add: be_nat_foldl)
qed

lemma be_nat_single: "be_nat [b] = unat b"
  by (simp add: be_nat_def)

lemma be_nat_big_endian: "be_nat (big_endian k x) = x mod 256 ^ k"
proof (induction k arbitrary: x)
  case 0
  then show ?case by (simp add: be_nat_def)
next
  case (Suc k)
  have "unat (of_nat (x mod 256) :: byte) = x mod 256"
    by (simp add: unat_of_nat)
  then have "be_nat (big_endian (Suc k) x) = (x div 256 mod 256 ^ k) * 256 + x mod 256"
    by (simp add: be_nat_append be_nat_single Suc.IH)
  also have "\<dots> = x mod 256 ^ Suc k"
    by (simp add: mod_mult2_eq)
  finally show ?case .
qed

lemma decimal_32: "decimal 32 = ''32''"
  by code_simp

lemma decimal_256: "decimal 256 = ''256''"
  by code_simp

lemma sample_digest_length: "length (sample_digest xs) = 32"
  by (simp add: sample_digest_def)

lemma eth_prefix_32:
  "signedMessagePrefix @ bytes_of (decimal 32) =
     bytes_of (CHR 0x19 # ''Ethereum Signed Message:'' @ [CHR 0x0A] @ ''32'')"
  by (simp add: signedMessagePrefix_def bytes_of_def decimal_32)

lemma sigHash_eq:
  assumes "\<forall>xs. length (Keccak256 xs) = 32"
  shows "sigHash Keccak256 cheque =
     Some (Keccak256 (bytes_of (CHR 0x19 # ''Ethereum Signed Message:'' @ [CHR 0x0A] @ ''32'') @
             Keccak256 (Bytes (Contract cheque) @ Bytes (Beneficiary cheque) @
                        big_endian 32 (unat (CumulativePayout cheque)))))"
proof -
  have pre: "signedMessagePrefix @ bytes_of (decimal 32) @ ys =
      bytes_of (CHR 0x19 # ''Ethereum Signed Message:'' @ [CHR 0x0A] @ ''32'') @ ys" for ys
    by (simp only: append_assoc [symmetric] eth_prefix_32)
  from assms show ?thesis
    by (simp add: sigHash_def encodeForSignature_eq Let_def pre)
qed

section \<open>Claims about the cheque model\<close>

text \<open>
  C1. For every cheque, \<open>sigHash\<close> is the Keccak-256 hash of the byte string
  \<^verbatim>\<open>"\x19Ethereum Signed Message:\n32"\<close> followed by the Keccak-256 hash of
  the cheque's encoding, and it has exactly 32 bytes. Keccak-256 enters as any
  function whose results have 32 bytes.
\<close>

theorem sigHash_eth_signed_message:
  assumes "\<forall>xs. length (Keccak256 xs) = 32"
  shows "\<exists>encoded. encodeForSignature cheque = Some encoded \<and>
           sigHash Keccak256 cheque =
             Some (Keccak256
                     (bytes_of (CHR 0x19 # ''Ethereum Signed Message:'' @ [CHR 0x0A] @ ''32'') @
                      Keccak256 encoded)) \<and>
           map_option length (sigHash Keccak256 cheque) = Some 32"
  using assms by (simp add: sigHash_eq [OF assms] encodeForSignature_eq)

theorem sigHash_eth_signed_message_witness:
  "(\<forall>xs. length (sample_digest xs) = 32) \<and>
   (\<exists>encoded. encodeForSignature sample_cheque = Some encoded \<and>
      sigHash sample_digest sample_cheque =
        Some (sample_digest
                (bytes_of (CHR 0x19 # ''Ethereum Signed Message:'' @ [CHR 0x0A] @ ''32'') @
                 sample_digest encoded)) \<and>
      map_option length (sigHash sample_digest sample_cheque) = Some 32)"
proof -
  have h: "\<forall>xs. length (sample_digest xs) = 32"
    by (simp add: sample_digest_length)
  from sigHash_eth_signed_message [OF h, of sample_cheque] h show ?thesis
    by blast
qed

text \<open>
  C2. For every cheque, \<open>encodeForSignature\<close> returns the 20 bytes of the
  contract address, then the 20 bytes of the beneficiary address, then the
  cumulative payout as a 32-byte big-endian unsigned integer. The first 24 of
  those 32 bytes are zero, so only the low 8 bytes can be non-zero, and a payout
  of 0 makes all 32 bytes zero.
\<close>

theorem encodeForSignature_layout:
  "encodeForSignature cheque =
     Some (Bytes (Contract cheque) @ Bytes (Beneficiary cheque) @
           big_endian 32 (unat (CumulativePayout cheque))) \<and>
   length (Bytes (Contract cheque)) = 20 \<and>
   length (Bytes (Beneficiary cheque)) = 20 \<and>
   length (big_endian 32 (unat (CumulativePayout cheque))) = 32 \<and>
   be_nat (big_endian 32 (unat (CumulativePayout cheque))) = unat (CumulativePayout cheque) \<and>
   take 24 (big_endian 32 (unat (CumulativePayout cheque))) = replicate 24 0 \<and>
   encodeForSignature (cheque\<lparr>CumulativePayout := 0\<rparr>) =
     Some (Bytes (Contract cheque) @ Bytes (Beneficiary cheque) @ replicate 32 0)"
proof -
  let ?p = "unat (CumulativePayout cheque)"
  have "?p < 2 ^ 64"
    using unsigned_less [of "CumulativePayout cheque", where 'a = nat] by simp
  then have "?p < 256 ^ 32"
    by simp
  then have val: "be_nat (big_endian 32 ?p) = ?p"
    by (simp only: be_nat_big_endian mod_less)
  have zeros: "take 24 (big_endian 32 ?p) = replicate 24 0"
    by (simp add: big_endian_32_unat)
  have zero: "encodeForSignature (cheque\<lparr>CumulativePayout := 0\<rparr>) =
     Some (Bytes (Contract cheque) @ Bytes (Beneficiary cheque) @ replicate 32 0)"
    by (simp add: encodeForSignature_eq big_endian_zero)
  from val zeros zero show ?thesis
    by (simp add: encodeForSignature_eq length_Bytes length_big_endian)
qed

text \<open>
  C3. For every contract address, every beneficiary address and every
  cumulative payout of 64 bits, \<open>encodeForSignature\<close> returns exactly 72 bytes.
\<close>

theorem encodeForSignature_length:
  "map_option length
     (encodeForSignature \<lparr>Contract = c, Beneficiary = b, CumulativePayout = p\<rparr>) = Some 72"
  by (simp add: encodeForSignature_eq length_Bytes length_big_endian)

text \<open>
  C6. For two cheques with the same contract and beneficiary, the second with
  a smaller cumulative payout than the first, \<open>encodeForSignature\<close> and
  \<open>sigHash\<close> both return a result on both cheques, and the results are the
  canonical encoding and hash of each cheque: neither function looks at
  another cheque or at any earlier state.
\<close>

theorem smaller_payout_accepted:
  assumes "\<forall>xs. length (Keccak256 xs) = 32"
    and "Contract c2 = Contract c1"
    and "Beneficiary c2 = Beneficiary c1"
    and "CumulativePayout c2 < CumulativePayout c1"
  shows "encodeForSignature c1 =
           Some (Bytes (Contract c1) @ Bytes (Beneficiary c1) @
                 big_endian 32 (unat (CumulativePayout c1))) \<and>
         encodeForSignature c2 =
           Some (Bytes (Contract c1) @ Bytes (Beneficiary c1) @
                 big_endian 32 (unat (CumulativePayout c2))) \<and>
         sigHash Keccak256 c1 =
           Some (Keccak256
                   (bytes_of (CHR 0x19 # ''Ethereum Signed Message:'' @ [CHR 0x0A] @ ''32'') @
                    Keccak256 (Bytes (Contract c1) @ Bytes (Beneficiary c1) @
                               big_endian 32 (unat (CumulativePayout c1))))) \<and>
         sigHash Keccak256 c2 =
           Some (Keccak256
                   (bytes_of (CHR 0x19 # ''Ethereum Signed Message:'' @ [CHR 0x0A] @ ''32'') @
                    Keccak256 (Bytes (Contract c1) @ Bytes (Beneficiary c1) @
                               big_endian 32 (unat (CumulativePayout c2)))))"
  using assms(2,3) by (simp add: sigHash_eq [OF assms(1)] encodeForSignature_eq)

theorem smaller_payout_accepted_witness:
  "(\<forall>xs. length (sample_digest xs) = 32) \<and>
   Contract smaller_cheque = Contract sample_cheque \<and>
   Beneficiary smaller_cheque = Beneficiary sample_cheque \<and>
   CumulativePayout smaller_cheque < CumulativePayout sample_cheque \<and>
   encodeForSignature sample_cheque =
     Some (Bytes (Contract sample_cheque) @ Bytes (Beneficiary sample_cheque) @
           big_endian 32 100) \<and>
   encodeForSignature smaller_cheque =
     Some (Bytes (Contract sample_cheque) @ Bytes (Beneficiary sample_cheque) @
           big_endian 32 50) \<and>
   sigHash sample_digest sample_cheque =
     Some (sample_digest
             (bytes_of (CHR 0x19 # ''Ethereum Signed Message:'' @ [CHR 0x0A] @ ''32'') @
              sample_digest (Bytes (Contract sample_cheque) @ Bytes (Beneficiary sample_cheque) @
                             big_endian 32 100))) \<and>
   sigHash sample_digest smaller_cheque =
     Some (sample_digest
             (bytes_of (CHR 0x19 # ''Ethereum Signed Message:'' @ [CHR 0x0A] @ ''32'') @
              sample_digest (Bytes (Contract sample_cheque) @ Bytes (Beneficiary sample_cheque) @
                             big_endian 32 50)))"
proof -
  have h1: "\<forall>xs. length (sample_digest xs) = 32"
    by (simp add: sample_digest_length)
  have h2: "Contract smaller_cheque = Contract sample_cheque"
    by (simp add: smaller_cheque_def)
  have h3: "Beneficiary smaller_cheque = Beneficiary sample_cheque"
    by (simp add: smaller_cheque_def)
  have h4: "CumulativePayout smaller_cheque < CumulativePayout sample_cheque"
    by (simp add: smaller_cheque_def sample_cheque_def)
  have p1: "unat (CumulativePayout sample_cheque) = 100"
    by (simp add: sample_cheque_def)
  have p2: "unat (CumulativePayout smaller_cheque) = 50"
    by (simp add: smaller_cheque_def)
  from smaller_payout_accepted [OF h1 h2 h3 h4] h1 h2 h3 h4 show ?thesis
    unfolding p1 p2 by blast
qed

text \<open>
  C9. Two cheques with equal contract, beneficiary and cumulative payout have
  the same encoding and the same signature hash: both functions depend on
  nothing but the three fields.
\<close>

theorem cheque_functions_deterministic:
  assumes "Contract c1 = Contract c2"
    and "Beneficiary c1 = Beneficiary c2"
    and "CumulativePayout c1 = CumulativePayout c2"
  shows "encodeForSignature c1 = encodeForSignature c2 \<and>
         sigHash Keccak256 c1 = sigHash Keccak256 c2"
  using assms by (simp add: sigHash_def encodeForSignature_eq)

theorem cheque_functions_deterministic_witness:
  "Contract sample_cheque = Contract (smaller_cheque\<lparr>CumulativePayout := 100\<rparr>) \<and>
   Beneficiary sample_cheque = Beneficiary (smaller_cheque\<lparr>CumulativePayout := 100\<rparr>) \<and>
   CumulativePayout sample_cheque = CumulativePayout (smaller_cheque\<lparr>CumulativePayout := 100\<rparr>) \<and>
   encodeForSignature sample_cheque =
     encodeForSignature (smaller_cheque\<lparr>CumulativePayout := 100\<rparr>) \<and>
   sigHash sample_digest sample_cheque =
     sigHash sample_digest (smaller_cheque\<lparr>CumulativePayout := 100\<rparr>)"
proof -
  let ?c2 = "smaller_cheque\<lparr>CumulativePayout := 100\<rparr>"
  have h1: "Contract sample_cheque = Contract ?c2"
    by (simp add: smaller_cheque_def)
  have h2: "Beneficiary sample_cheque = Beneficiary ?c2"
    by (simp add: smaller_cheque_def)
  have h3: "CumulativePayout sample_cheque = CumulativePayout ?c2"
    by (simp add: sample_cheque_def)
  from cheque_functions_deterministic [OF h1 h2 h3, of sample_digest] h1 h2 h3 show ?thesis
    by blast
qed

section \<open>Properties of the call data\<close>

lemma Sig_cashChequeBeneficiary:
  "Sig \<lparr>Name = ''cashChequeBeneficiary'', Inputs = [AddressTy, UintTy 256, BytesTy]\<rparr> =
     ''cashChequeBeneficiary(address,uint256,bytes)''"
  by (simp add: Sig_def decimal_256)

lemma U256_nat: "n < 2 ^ 256 \<Longrightarrow> U256 (int n) = big_endian 32 n"
  by (simp add: U256_def)

lemma U256_96: "U256 96 = big_endian 32 96"
  by (simp add: U256_def)

lemma Arguments_Pack_eq:
  "Arguments_Pack [AddressTy, UintTy 256, BytesTy] [AddressV r, BigIntV n, BytesV s] =
     Inr (replicate 12 0 @ Bytes r @ U256 n @ big_endian 32 96 @ U256 (int (length s)) @
          s @ replicate ((length s + 31) div 32 * 32 - length s) 0)"
  by (simp add: Arguments_Pack_def LeftPadBytes_def RightPadBytes_def packBytesSlice_def
      packNum_def length_Bytes U256_96)

lemma ABI_Pack_eq:
  "ERC20SimpleSwapABI = Inr abi \<Longrightarrow>
   ABI_Pack K abi ''cashChequeBeneficiary'' [AddressV r, BigIntV n, BytesV s] =
     Inr (take 4 (K (bytes_of ''cashChequeBeneficiary(address,uint256,bytes)'')) @
          replicate 12 0 @ Bytes r @ U256 n @ big_endian 32 96 @ U256 (int (length s)) @
          s @ replicate ((length s + 31) div 32 * 32 - length s) 0)"
  by (auto simp add: ERC20SimpleSwapABI_def ABI_Pack_def Arguments_Pack_eq ID_def
      Sig_cashChequeBeneficiary)

lemma sint64_shift: "sint (v :: 64 word) = take_bit 64 (uint v + 2 ^ 63) - 2 ^ 63"
  by (simp add: sint_uint signed_take_bit_eq_take_bit_shift)

lemma uint64_bound: "uint (v :: 64 word) < 2 ^ 64"
  using uint_bounded [of v] by simp

lemma sint64_small:
  assumes "v < (2 ^ 63 :: 64 word)"
  shows "sint v = int (unat v)"
proof -
  have "uint v < 2 ^ 63"
    using assms by (simp add: word_less_def)
  then have "take_bit 64 (uint v + 2 ^ 63) = uint v + 2 ^ 63"
    by (simp add: take_bit_int_eq_self)
  then show ?thesis
    by (simp add: sint64_shift)
qed

lemma sint64_large:
  assumes "(2 ^ 63 :: 64 word) \<le> v"
  shows "sint v = int (unat v) - 2 ^ 64"
proof -
  have lo: "2 ^ 63 \<le> uint v"
    using assms by (simp add: word_le_def)
  have "take_bit 64 (uint v + 2 ^ 63) = (uint v + 2 ^ 63) mod 2 ^ 64"
    by (simp add: take_bit_eq_mod)
  also have "\<dots> = (uint v + 2 ^ 63 - 2 ^ 64) mod 2 ^ 64"
    by (metis minus_mod_self2)
  also have "\<dots> = uint v + 2 ^ 63 - 2 ^ 64"
    using lo uint64_bound [of v] by (intro mod_pos_pos_trivial) simp_all
  finally show ?thesis
    by (simp add: sint64_shift)
qed

lemma U256_sint_small:
  assumes "v < (2 ^ 63 :: 64 word)"
  shows "U256 (sint v) = big_endian 32 (unat v)"
proof -
  have "unat v < 2 ^ 64"
    using unsigned_less [of v, where 'a = nat] by simp
  then have "unat v < 2 ^ 256"
    by simp
  then show ?thesis
    by (simp only: sint64_small [OF assms] U256_nat)
qed

lemma nat_sint64_large:
  assumes "(2 ^ 63 :: 64 word) \<le> v"
  shows "nat (sint v mod 2 ^ 256) = 2 ^ 256 - 2 ^ 64 + unat v"
proof -
  have b: "int (unat v) < 2 ^ 64"
    using uint64_bound [of v] by simp
  have "(int (unat v) - 2 ^ 64) mod 2 ^ 256 = (int (unat v) - 2 ^ 64 + 2 ^ 256) mod 2 ^ 256"
    by (metis mod_add_self2)
  also have "\<dots> = int (unat v) - 2 ^ 64 + 2 ^ 256"
    using b by (intro mod_pos_pos_trivial) simp_all
  finally show ?thesis
    by (simp add: sint64_large [OF assms] nat_add_distrib nat_diff_distrib)
qed

lemma BytesToAddress_padded: "BytesToAddress (replicate 12 0 @ Bytes r) = r"
  by (simp add: Bytes_inject [symmetric] Bytes_BytesToAddress length_Bytes)

lemma unpackArguments_packed:
  assumes "length s < 2 ^ 256"
  shows "unpackArguments
           (replicate 12 0 @ Bytes r @ big_endian 32 n @ big_endian 32 96 @
            big_endian 32 (length s) @ s @ replicate p 0) =
         Some (r, n mod 2 ^ 256, s)"
proof -
  have l: "be_nat (big_endian 32 (length s)) = length s"
    using assms by (simp add: be_nat_big_endian)
  have o: "be_nat (big_endian 32 96) = 96"
    by (simp add: be_nat_big_endian)
  have n: "be_nat (big_endian 32 n) = n mod 2 ^ 256"
    by (simp add: be_nat_big_endian)
  show ?thesis
    by (simp add: unpackArguments_def length_Bytes length_big_endian l o n
        BytesToAddress_padded Let_def)
qed

lemma ERC20SimpleSwapABI_parsed: "\<exists>abi. ERC20SimpleSwapABI = Inr abi"
  by (simp add: ERC20SimpleSwapABI_def)

lemma request_eq:
  "CashChequeBeneficiaryRequest K backend s to r cheque sig =
     (case PendingNonceAt backend (Beneficiary cheque) s of
        (Inl err, s1) \<Rightarrow> (Inl err, s1)
      | (Inr nonce, s1) \<Rightarrow>
          (case SuggestGasPrice backend s1 of
             (Inl err, s2) \<Rightarrow> (Inl err, s2)
           | (Inr gasPrice, s2) \<Rightarrow>
               (Inr \<lparr>AccountNonce = nonce, Price = gasPrice, GasLimit = 1000000,
                     Recipient = Some to, Amount = 0,
                     Payload =
                       take 4 (K (bytes_of ''cashChequeBeneficiary(address,uint256,bytes)'')) @
                       replicate 12 0 @ Bytes r @ U256 (sint (CumulativePayout cheque)) @
                       big_endian 32 96 @ U256 (int (length sig)) @
                       sig @ replicate ((length sig + 31) div 32 * 32 - length sig) 0\<rparr>,
                s2)))"
proof -
  obtain abi where abi: "ERC20SimpleSwapABI = Inr abi"
    using ERC20SimpleSwapABI_parsed by blast
  show ?thesis
    by (simp add: CashChequeBeneficiaryRequest_def abi ABI_Pack_eq [OF abi] NewTransaction_def
        split: sum.splits prod.splits)
qed

lemma request_Payload:
  assumes "fst (CashChequeBeneficiaryRequest K backend s to r cheque sig) = Inr tx"
  shows "Payload tx =
           take 4 (K (bytes_of ''cashChequeBeneficiary(address,uint256,bytes)'')) @
           replicate 12 0 @ Bytes r @ U256 (sint (CumulativePayout cheque)) @
           big_endian 32 96 @ U256 (int (length sig)) @
           sig @ replicate ((length sig + 31) div 32 * 32 - length sig) 0"
  using assms by (auto simp add: request_eq split: sum.splits prod.splits)

lemma unpack_request:
  assumes digest: "\<forall>xs. length (K xs) = 32"
    and len: "length sig < 2 ^ 256"
    and ok: "fst (CashChequeBeneficiaryRequest K backend s to r cheque sig) = Inr tx"
  shows "unpackCallData (Payload tx) =
           Some (r, nat (sint (CumulativePayout cheque) mod 2 ^ 256), sig)"
proof -
  let ?sel = "take 4 (K (bytes_of ''cashChequeBeneficiary(address,uint256,bytes)''))"
  let ?n = "nat (sint (CumulativePayout cheque) mod 2 ^ 256)"
  have sel: "length ?sel = 4"
    using digest by simp
  have "?n < 2 ^ 256"
    by (simp add: nat_less_iff)
  then have n: "?n mod 2 ^ 256 = ?n"
    by simp
  have "Payload tx = ?sel @
      (replicate 12 0 @ Bytes r @ big_endian 32 ?n @ big_endian 32 96 @
       big_endian 32 (length sig) @ sig @
       replicate ((length sig + 31) div 32 * 32 - length sig) 0)"
    using request_Payload [OF ok] len by (simp add: U256_nat) (simp add: U256_def)
  then show ?thesis
    using sel unpackArguments_packed [OF len, of r ?n] n
    by (simp add: unpackCallData_def length_Bytes length_big_endian)
qed

lemma callData_roundtrip_below_2_63:
  assumes "\<forall>xs. length (K xs) = 32"
    and "length sig < 2 ^ 256"
    and "CumulativePayout cheque < 2 ^ 63"
    and "fst (CashChequeBeneficiaryRequest K backend s to r cheque sig) = Inr tx"
  shows "unpackCallData (Payload tx) = Some (r, unat (CumulativePayout cheque), sig)"
proof -
  let ?v = "CumulativePayout cheque"
  have "uint ?v mod 2 ^ 256 = uint ?v"
    using uint64_bound [of ?v] by (intro mod_pos_pos_trivial) simp_all
  then have "nat (sint ?v mod 2 ^ 256) = unat ?v"
    by (simp add: sint64_small [OF assms(3)])
  with unpack_request [OF assms(1,2,4)] show ?thesis
    by simp
qed

lemma callData_payout_from_2_63:
  assumes "\<forall>xs. length (K xs) = 32"
    and "length sig < 2 ^ 256"
    and "2 ^ 63 \<le> CumulativePayout cheque"
    and "fst (CashChequeBeneficiaryRequest K backend s to r cheque sig) = Inr tx"
  shows "unpackCallData (Payload tx) =
           Some (r, 2 ^ 256 - 2 ^ 64 + unat (CumulativePayout cheque), sig)"
  using unpack_request [OF assms(1,2,4)] by (simp only: nat_sint64_large [OF assms(3)])

lemma request_sample_backend:
  "\<exists>tx. CashChequeBeneficiaryRequest K sample_backend [] to r cheque sig =
          (Inr tx, [NonceQuery (Beneficiary cheque), PriceQuery])"
  by (simp add: request_eq sample_backend_def)

lemma big_endian_numeral:
  "big_endian (numeral k) x = big_endian (pred_numeral k) (x div 256) @ [of_nat (x mod 256)]"
  by (metis big_endian.simps(2) numeral_eq_Suc)

lemma replicate_numeral: "replicate (numeral k) x = x # replicate (pred_numeral k) x"
  by (metis replicate_Suc numeral_eq_Suc)

lemma U256_minus_one: "U256 (- 1) = replicate 32 0xFF"
proof -
  have "U256 (- 1) = big_endian 32 (2 ^ 256 - 1)"
    by (simp add: U256_def)
  also have "\<dots> = replicate 32 0xFF"
    by (simp add: big_endian_numeral replicate_numeral)
  finally show ?thesis .
qed

section \<open>Claims about the cash-out request\<close>

text \<open>
  C4. Reading the call data back should recover the recipient, the cumulative
  payout and the signature for every 64-bit payout. It does not at the payout
  \<open>2 ^ 64 - 1\<close> with a 65-byte signature: the request is built, but the
  integer word of its call data (the bytes 36 to 67) is 32 times \<open>0xFF\<close>, that
  is \<open>2 ^ 256 - 1\<close>. The conversion to \<^verbatim>\<open>int64\<close> makes the payout \<open>-1\<close>,
  which is packed in two's complement. The encoding that is signed for the same
  cheque carries \<open>2 ^ 64 - 1\<close>.
\<close>

theorem callData_payout_wraps_at_max:
  "\<exists>tx. CashChequeBeneficiaryRequest sample_digest sample_backend [] (Contract sample_cheque)
           sample_recipient (sample_cheque\<lparr>CumulativePayout := 0xFFFFFFFFFFFFFFFF\<rparr>)
           (replicate 65 0x1B) = (Inr tx, [NonceQuery (Beneficiary sample_cheque), PriceQuery]) \<and>
        take 32 (drop 36 (Payload tx)) = replicate 32 0xFF \<and>
        unpackCallData (Payload tx) = Some (sample_recipient, 2 ^ 256 - 1, replicate 65 0x1B) \<and>
        unat (0xFFFFFFFFFFFFFFFF :: 64 word) = 2 ^ 64 - 1 \<and>
        encodeForSignature (sample_cheque\<lparr>CumulativePayout := 0xFFFFFFFFFFFFFFFF\<rparr>) =
          Some (Bytes (Contract sample_cheque) @ Bytes (Beneficiary sample_cheque) @
                big_endian 32 (2 ^ 64 - 1))"
proof -
  let ?c = "sample_cheque\<lparr>CumulativePayout := 0xFFFFFFFFFFFFFFFF\<rparr>"
  obtain tx where tx: "CashChequeBeneficiaryRequest sample_digest sample_backend []
      (Contract sample_cheque) sample_recipient ?c (replicate 65 0x1B) =
      (Inr tx, [NonceQuery (Beneficiary ?c), PriceQuery])"
    using request_sample_backend by blast
  then have ok: "fst (CashChequeBeneficiaryRequest sample_digest sample_backend []
      (Contract sample_cheque) sample_recipient ?c (replicate 65 0x1B)) = Inr tx"
    by simp
  have h: "\<forall>xs. length (sample_digest xs) = 32"
    by (simp add: sample_digest_length)
  have l: "length (replicate 65 (0x1B :: byte)) < 2 ^ 256"
    by simp
  have "nat (sint (CumulativePayout ?c) mod 2 ^ 256) = 2 ^ 256 - 1"
    by simp
  with unpack_request [OF h l ok]
  have unpacked:
    "unpackCallData (Payload tx) = Some (sample_recipient, 2 ^ 256 - 1, replicate 65 0x1B)"
    by simp
  have "sint (CumulativePayout ?c) = - 1"
    by simp
  then have word:
    "take 32 (drop 36 (Payload tx)) = replicate 32 0xFF"
    using request_Payload [OF ok] h
    by (simp add: length_Bytes U256_minus_one)
  have "encodeForSignature ?c =
      Some (Bytes (Contract sample_cheque) @ Bytes (Beneficiary sample_cheque) @
            big_endian 32 (2 ^ 64 - 1))"
    by (simp add: encodeForSignature_eq)
  with unpacked word tx show ?thesis
    by simp
qed

text \<open>
  C5. For a contract address \<open>C\<close>, a beneficiary \<open>B\<close>, the payout 100 and any
  signature \<open>S\<close>, the call data of the request built for \<open>(B, 100, S)\<close> is the
  first four bytes of the Keccak-256 hash of
  \<^verbatim>\<open>cashChequeBeneficiary(address,uint256,bytes)\<close>, then \<open>B\<close> after 12 zero bytes,
  then 100 as a 32-byte big-endian integer, then the signature as dynamic
  bytes: the offset word 96 (the three head words), the length word, and the
  signature padded with zeros to a multiple of 32 bytes.
\<close>

theorem cashChequeBeneficiary_callData_layout:
  assumes "\<forall>xs. length (Keccak256 xs) = 32"
    and "length S < 2 ^ 256"
    and "fst (CashChequeBeneficiaryRequest Keccak256 backend s C B
           \<lparr>Contract = C, Beneficiary = B, CumulativePayout = 100\<rparr> S) = Inr tx"
  shows "(\<exists>abi. ERC20SimpleSwapABI = Inr abi \<and>
            ABI_Pack Keccak256 abi ''cashChequeBeneficiary''
              [AddressV B, BigIntV (sint (100 :: 64 word)), BytesV S] = Inr (Payload tx)) \<and>
         Payload tx =
           take 4 (Keccak256 (bytes_of ''cashChequeBeneficiary(address,uint256,bytes)'')) @
           (replicate 12 0 @ Bytes B) @
           big_endian 32 100 @
           big_endian 32 96 @ big_endian 32 (length S) @
           (S @ replicate ((length S + 31) div 32 * 32 - length S) 0) \<and>
         length (take 4 (Keccak256 (bytes_of ''cashChequeBeneficiary(address,uint256,bytes)''))) = 4 \<and>
         length (replicate 12 (0 :: byte) @ Bytes B) = 32 \<and>
         be_nat (big_endian 32 100) = 100 \<and>
         be_nat (big_endian 32 96) = 96 \<and>
         be_nat (big_endian 32 (length S)) = length S \<and>
         length (S @ replicate ((length S + 31) div 32 * 32 - length S) (0 :: byte)) =
           (length S + 31) div 32 * 32"
proof -
  obtain abi where abi: "ERC20SimpleSwapABI = Inr abi"
    using ERC20SimpleSwapABI_parsed by blast
  have packed: "ABI_Pack Keccak256 abi ''cashChequeBeneficiary''
      [AddressV B, BigIntV (sint (100 :: 64 word)), BytesV S] = Inr (Payload tx)"
    using request_Payload [OF assms(3)] by (simp only: ABI_Pack_eq [OF abi] ChequeParams.simps)
  have "(100 :: 64 word) < 2 ^ 63"
    by simp
  then have "U256 (sint (100 :: 64 word)) = big_endian 32 100"
    using U256_sint_small [of 100] by simp
  then have payload: "Payload tx =
           take 4 (Keccak256 (bytes_of ''cashChequeBeneficiary(address,uint256,bytes)'')) @
           (replicate 12 0 @ Bytes B) @
           big_endian 32 100 @
           big_endian 32 96 @ big_endian 32 (length S) @
           (S @ replicate ((length S + 31) div 32 * 32 - length S) 0)"
    using request_Payload [OF assms(3)] assms(2) by (simp add: U256_nat)
  have pad: "length S \<le> (length S + 31) div 32 * 32"
    by presburger
  have rest: "length (take 4 (Keccak256 (bytes_of ''cashChequeBeneficiary(address,uint256,bytes)''))) = 4 \<and>
         length (replicate 12 (0 :: byte) @ Bytes B) = 32 \<and>
         be_nat (big_endian 32 100) = 100 \<and>
         be_nat (big_endian 32 96) = 96 \<and>
         be_nat (big_endian 32 (length S)) = length S \<and>
         length (S @ replicate ((length S + 31) div 32 * 32 - length S) (0 :: byte)) =
           (length S + 31) div 32 * 32"
    using pad assms(1,2) by (simp add: length_Bytes be_nat_big_endian)
  from abi packed payload rest show ?thesis
    by blast
qed

theorem cashChequeBeneficiary_callData_layout_witness:
  "(\<forall>xs. length (sample_digest xs) = 32) \<and>
   length (replicate 65 (0x1B :: byte)) < 2 ^ 256 \<and>
   (\<exists>tx. fst (CashChequeBeneficiaryRequest sample_digest sample_backend []
            (Contract sample_cheque) (Beneficiary sample_cheque)
            \<lparr>Contract = Contract sample_cheque, Beneficiary = Beneficiary sample_cheque,
             CumulativePayout = 100\<rparr>
            (replicate 65 0x1B)) = Inr tx \<and>
      Payload tx =
        take 4 (sample_digest (bytes_of ''cashChequeBeneficiary(address,uint256,bytes)'')) @
        (replicate 12 0 @ Bytes (Beneficiary sample_cheque)) @
        big_endian 32 100 @
        big_endian 32 96 @ big_endian 32 65 @
        (replicate 65 0x1B @ replicate 31 0))"
proof -
  have h: "\<forall>xs. length (sample_digest xs) = 32"
    by (simp add: sample_digest_length)
  have l: "length (replicate 65 (0x1B :: byte)) < 2 ^ 256"
    by simp
  obtain tx where tx: "fst (CashChequeBeneficiaryRequest sample_digest sample_backend []
      (Contract sample_cheque) (Beneficiary sample_cheque)
      \<lparr>Contract = Contract sample_cheque, Beneficiary = Beneficiary sample_cheque,
       CumulativePayout = 100\<rparr>
      (replicate 65 0x1B)) = Inr tx"
    using request_sample_backend by (metis fst_conv)
  from cashChequeBeneficiary_callData_layout [OF h l tx] h l tx show ?thesis
    by simp
qed

text \<open>
  C7. Whenever the request succeeds, the transaction transfers no value, its
  payload is the call data that \<^verbatim>\<open>abi.Pack\<close> returned, it is addressed to the
  contract \<open>to\<close>, its nonce and price are the answers of the ledger client
  to the two queries, and its gas limit is the constant 1000000.
\<close>

theorem request_transaction_fields:
  assumes "CashChequeBeneficiaryRequest Keccak256 backend s to recipient cheque ownerSig =
             (Inr tx, s')"
  shows "\<exists>abi callData nonce s1 gasPrice.
           ERC20SimpleSwapABI = Inr abi \<and>
           ABI_Pack Keccak256 abi ''cashChequeBeneficiary''
             [AddressV recipient, BigIntV (sint (CumulativePayout cheque)), BytesV ownerSig] =
             Inr callData \<and>
           PendingNonceAt backend (Beneficiary cheque) s = (Inr nonce, s1) \<and>
           SuggestGasPrice backend s1 = (Inr gasPrice, s') \<and>
           Amount tx = 0 \<and>
           Payload tx = callData \<and>
           Recipient tx = Some to \<and>
           AccountNonce tx = nonce \<and>
           Price tx = gasPrice \<and>
           GasLimit tx = 1000000"
  using assms
  by (auto simp add: CashChequeBeneficiaryRequest_def NewTransaction_def
      split: sum.splits prod.splits)

theorem request_transaction_fields_witness:
  "\<exists>tx. CashChequeBeneficiaryRequest sample_digest sample_backend [] (Contract sample_cheque)
           sample_recipient sample_cheque (replicate 65 0x1B) =
           (Inr tx, [NonceQuery (Beneficiary sample_cheque), PriceQuery]) \<and>
     (\<exists>abi callData.
        ERC20SimpleSwapABI = Inr abi \<and>
        ABI_Pack sample_digest abi ''cashChequeBeneficiary''
          [AddressV sample_recipient, BigIntV 100, BytesV (replicate 65 0x1B)] = Inr callData \<and>
        Payload tx = callData) \<and>
     Amount tx = 0 \<and>
     Recipient tx = Some (Contract sample_cheque) \<and>
     AccountNonce tx = 0xBE \<and>
     Price tx = 20000000000 \<and>
     GasLimit tx = 1000000"
proof -
  obtain tx where tx: "CashChequeBeneficiaryRequest sample_digest sample_backend []
      (Contract sample_cheque) sample_recipient sample_cheque (replicate 65 0x1B) =
      (Inr tx, [NonceQuery (Beneficiary sample_cheque), PriceQuery])"
    using request_sample_backend by blast
  have n: "PendingNonceAt sample_backend (Beneficiary sample_cheque) [] =
      (Inr 0xBE, [NonceQuery (Beneficiary sample_cheque)])"
    by (simp add: sample_backend_def sample_cheque_def Bytes_BytesToAddress)
  have g: "SuggestGasPrice sample_backend s1 = (Inr 20000000000, s1 @ [PriceQuery])" for s1
    by (simp add: sample_backend_def)
  have p: "sint (CumulativePayout sample_cheque) = 100"
    by (simp add: sample_cheque_def)
  from request_transaction_fields [OF tx] n g tx show ?thesis
    unfolding p by auto
qed

text \<open>
  C8. When the pending-nonce query fails, the request returns that error
  itself and no transaction, and leaves the ledger client in the state that
  one query left it in: it asks nothing further. When the nonce query has
  answered and the price query fails, the request returns that error itself
  and no transaction, the client being in the state after these two queries.
  The request returns an error exactly when ABI packing, the nonce query or
  the price query fails.
\<close>

theorem request_error_propagation:
  "(\<forall>err s1. PendingNonceAt backend (Beneficiary cheque) s = (Inl err, s1) \<longrightarrow>
      CashChequeBeneficiaryRequest Keccak256 backend s to recipient cheque ownerSig =
        (Inl err, s1)) \<and>
   (\<forall>nonce s1 err s2.
      PendingNonceAt backend (Beneficiary cheque) s = (Inr nonce, s1) \<and>
      SuggestGasPrice backend s1 = (Inl err, s2) \<longrightarrow>
      CashChequeBeneficiaryRequest Keccak256 backend s to recipient cheque ownerSig =
        (Inl err, s2)) \<and>
   (\<exists>abi. ERC20SimpleSwapABI = Inr abi \<and>
      (isl (fst (CashChequeBeneficiaryRequest Keccak256 backend s to recipient cheque ownerSig))
         \<longleftrightarrow>
         isl (ABI_Pack Keccak256 abi ''cashChequeBeneficiary''
               [AddressV recipient, BigIntV (sint (CumulativePayout cheque)), BytesV ownerSig]) \<or>
         isl (fst (PendingNonceAt backend (Beneficiary cheque) s)) \<or>
         isl (fst (SuggestGasPrice backend
                     (snd (PendingNonceAt backend (Beneficiary cheque) s))))))"
proof (intro conjI)
  show "\<forall>err s1. PendingNonceAt backend (Beneficiary cheque) s = (Inl err, s1) \<longrightarrow>
      CashChequeBeneficiaryRequest Keccak256 backend s to recipient cheque ownerSig =
        (Inl err, s1)"
    by (simp add: request_eq)
  show "\<forall>nonce s1 err s2.
      PendingNonceAt backend (Beneficiary cheque) s = (Inr nonce, s1) \<and>
      SuggestGasPrice backend s1 = (Inl err, s2) \<longrightarrow>
      CashChequeBeneficiaryRequest Keccak256 backend s to recipient cheque ownerSig =
        (Inl err, s2)"
    by (simp add: request_eq)
  obtain abi where abi: "ERC20SimpleSwapABI = Inr abi"
    using ERC20SimpleSwapABI_parsed by blast
  have "isl (fst (CashChequeBeneficiaryRequest Keccak256 backend s to recipient cheque ownerSig))
         \<longleftrightarrow>
         isl (ABI_Pack Keccak256 abi ''cashChequeBeneficiary''
               [AddressV recipient, BigIntV (sint (CumulativePayout cheque)), BytesV ownerSig]) \<or>
         isl (fst (PendingNonceAt backend (Beneficiary cheque) s)) \<or>
         isl (fst (SuggestGasPrice backend
                     (snd (PendingNonceAt backend (Beneficiary cheque) s))))"
    by (simp add: request_eq ABI_Pack_eq [OF abi] split: sum.splits prod.splits)
  with abi show "\<exists>abi. ERC20SimpleSwapABI = Inr abi \<and>
      (isl (fst (CashChequeBeneficiaryRequest Keccak256 backend s to recipient cheque ownerSig))
         \<longleftrightarrow>
         isl (ABI_Pack Keccak256 abi ''cashChequeBeneficiary''
               [AddressV recipient, BigIntV (sint (CumulativePayout cheque)), BytesV ownerSig]) \<or>
         isl (fst (PendingNonceAt backend (Beneficiary cheque) s)) \<or>
         isl (fst (SuggestGasPrice backend
                     (snd (PendingNonceAt backend (Beneficiary cheque) s)))))"
    by blast
qed

theorem request_error_propagation_witness:
  "PendingNonceAt nonce_failing_backend (Beneficiary sample_cheque) [] =
     (Inl (Error ''nonce unavailable''), [NonceQuery (Beneficiary sample_cheque)]) \<and>
   CashChequeBeneficiaryRequest sample_digest nonce_failing_backend [] (Contract sample_cheque)
     sample_recipient sample_cheque (replicate 65 0x1B) =
     (Inl (Error ''nonce unavailable''), [NonceQuery (Beneficiary sample_cheque)]) \<and>
   PendingNonceAt price_failing_backend (Beneficiary sample_cheque) [] =
     (Inr 7, [NonceQuery (Beneficiary sample_cheque)]) \<and>
   SuggestGasPrice price_failing_backend [NonceQuery (Beneficiary sample_cheque)] =
     (Inl (Error ''price unavailable''), [NonceQuery (Beneficiary sample_cheque), PriceQuery]) \<and>
   CashChequeBeneficiaryRequest sample_digest price_failing_backend [] (Contract sample_cheque)
     sample_recipient sample_cheque (replicate 65 0x1B) =
     (Inl (Error ''price unavailable''), [NonceQuery (Beneficiary sample_cheque), PriceQuery]) \<and>
   \<not> isl (fst (CashChequeBeneficiaryRequest sample_digest sample_backend []
              (Contract sample_cheque) sample_recipient sample_cheque (replicate 65 0x1B)))"
proof -
  have n: "PendingNonceAt nonce_failing_backend (Beneficiary sample_cheque) [] =
      (Inl (Error ''nonce unavailable''), [NonceQuery (Beneficiary sample_cheque)])"
    by (simp add: nonce_failing_backend_def)
  have p1: "PendingNonceAt price_failing_backend (Beneficiary sample_cheque) [] =
      (Inr 7, [NonceQuery (Beneficiary sample_cheque)])"
    by (simp add: price_failing_backend_def)
  have p2: "SuggestGasPrice price_failing_backend [NonceQuery (Beneficiary sample_cheque)] =
      (Inl (Error ''price unavailable''), [NonceQuery (Beneficiary sample_cheque), PriceQuery])"
    by (simp add: price_failing_backend_def)
  have s1: "\<not> isl (fst (PendingNonceAt sample_backend (Beneficiary sample_cheque) []))"
    by (simp add: sample_backend_def)
  have s2: "\<not> isl (fst (SuggestGasPrice sample_backend
      (snd (PendingNonceAt sample_backend (Beneficiary sample_cheque) []))))"
    by (simp add: sample_backend_def)
  have s3: "\<not> isl (ABI_Pack sample_digest abi ''cashChequeBeneficiary''
      [AddressV sample_recipient, BigIntV (sint (CumulativePayout sample_cheque)),
       BytesV (replicate 65 0x1B)])" if "ERC20SimpleSwapABI = Inr abi" for abi
    by (simp add: ABI_Pack_eq [OF that])
  from request_error_propagation [of nonce_failing_backend sample_cheque "[]" sample_digest
      "Contract sample_cheque" sample_recipient "replicate 65 0x1B"] n
  have a: "CashChequeBeneficiaryRequest sample_digest nonce_failing_backend []
      (Contract sample_cheque) sample_recipient sample_cheque (replicate 65 0x1B) =
      (Inl (Error ''nonce unavailable''), [NonceQuery (Beneficiary sample_cheque)])"
    by blast
  from request_error_propagation [of price_failing_backend sample_cheque "[]" sample_digest
      "Contract sample_cheque" sample_recipient "replicate 65 0x1B"] p1 p2
  have b: "CashChequeBeneficiaryRequest sample_digest price_failing_backend []
      (Contract sample_cheque) sample_recipient sample_cheque (replicate 65 0x1B) =
      (Inl (Error ''price unavailable''), [NonceQuery (Beneficiary sample_cheque), PriceQuery])"
    by blast
  from request_error_propagation [of sample_backend sample_cheque "[]" sample_digest
      "Contract sample_cheque" sample_recipient "replicate 65 0x1B"] s1 s2 s3
  have c: "\<not> isl (fst (CashChequeBeneficiaryRequest sample_digest sample_backend []
      (Contract sample_cheque) sample_recipient sample_cheque (replicate 65 0x1B)))"
    by auto
  from n p1 p2 a b c show ?thesis
    by simp
qed

text \<open>
  C10. The nonce of the transaction is the answer of the ledger client to the
  pending-nonce query for the cheque's beneficiary, made in the state the
  request started in; the price query follows it, and the request makes no
  other query. The request has no parameter for a sender account.
\<close>

theorem request_nonce_of_beneficiary:
  assumes "CashChequeBeneficiaryRequest Keccak256 backend s to recipient cheque ownerSig =
             (Inr tx, s')"
  shows "\<exists>s1. PendingNonceAt backend (Beneficiary cheque) s = (Inr (AccountNonce tx), s1) \<and>
              s' = snd (SuggestGasPrice backend s1)"
  using assms by (auto simp add: request_eq split: sum.splits prod.splits)

theorem request_nonce_of_beneficiary_witness:
  "\<exists>tx. CashChequeBeneficiaryRequest sample_digest sample_backend [] (Contract sample_cheque)
           sample_recipient sample_cheque [] =
           (Inr tx, [NonceQuery (Beneficiary sample_cheque), PriceQuery]) \<and>
     PendingNonceAt sample_backend (Beneficiary sample_cheque) [] =
       (Inr (AccountNonce tx), [NonceQuery (Beneficiary sample_cheque)]) \<and>
     AccountNonce tx = 0xBE \<and>
     fst (PendingNonceAt sample_backend (Contract sample_cheque) []) = Inr 0xC0 \<and>
     fst (PendingNonceAt sample_backend sample_recipient []) = Inr 0xAD"
proof -
  obtain tx where tx: "CashChequeBeneficiaryRequest sample_digest sample_backend []
      (Contract sample_cheque) sample_recipient sample_cheque [] =
      (Inr tx, [NonceQuery (Beneficiary sample_cheque), PriceQuery])"
    using request_sample_backend by blast
  have b: "PendingNonceAt sample_backend (Beneficiary sample_cheque) [] =
      (Inr 0xBE, [NonceQuery (Beneficiary sample_cheque)])"
    by (simp add: sample_backend_def sample_cheque_def Bytes_BytesToAddress)
  have c: "fst (PendingNonceAt sample_backend (Contract sample_cheque) []) = Inr 0xC0"
    by (simp add: sample_backend_def sample_cheque_def Bytes_BytesToAddress)
  have r: "fst (PendingNonceAt sample_backend sample_recipient []) = Inr 0xAD"
    by (simp add: sample_backend_def sample_recipient_def Bytes_BytesToAddress)
  from request_nonce_of_beneficiary [OF tx] b c r tx show ?thesis
    by auto
qed

end
